theory Spec2Isabelle
  imports Complex_Main
begin

section \<open>The arbitrary-precision numbers of bignumber.js\<close>

text \<open>
  The Wei class and the format module compute with the \<^verbatim>\<open>BigNumber\<close> values of the
  bignumber.js library, which is a dependency of the repository and not part of it. The
  library is modelled here from its API documentation, for the operations the sources call
  and under the configuration the sources leave in force: \<^verbatim>\<open>DECIMAL_PLACES = 20\<close> and
  \<^verbatim>\<open>ROUNDING_MODE = ROUND_HALF_UP\<close> (the defaults; the only setting the sources change is
  \<^verbatim>\<open>EXPONENTIAL_AT\<close>, which bears on \<^verbatim>\<open>toString()\<close> without a base only).

  A BigNumber is a finite decimal, an infinity or NaN. The finite ones are modelled as
  rationals: sums, differences and products of decimals are exact in the library, and
  quotients are rounded to \<^verbatim>\<open>DECIMAL_PLACES\<close>, so the decimals are closed under the
  operations below. The library's negative zero is identified with zero: comparison,
  \<^verbatim>\<open>isZero\<close>, \<^verbatim>\<open>toString\<close> and \<^verbatim>\<open>toFixed\<close> do not tell them apart, and the Wei class guards
  its own sign tests with \<^verbatim>\<open>!this.isZero()\<close>. The one observable difference is the sign of
  the infinity that a division by negative zero returns: the library gives the quotient
  the sign of dividend times divisor, so \<open>7\<close> divided by negative zero is \<open>-Infinity\<close>. The
  one zero of the model is the divisor \<open>0\<close>, and no theorem below states which of the two
  infinities a division by zero returns.
\<close>

datatype BigNumber = Fin rat | PInf | NInf | NaN

text \<open>The rounding modes the sources use; \<^verbatim>\<open>ROUND_DOWN\<close> is the mode of
  \<^verbatim>\<open>dividedToIntegerBy\<close>. The library documents them as:
  \<^verbatim>\<open>ROUND_DOWN\<close> (1) rounds towards zero;
  \<^verbatim>\<open>ROUND_HALF_UP\<close> (4) rounds towards nearest neighbour, if equidistant away from zero;
  \<^verbatim>\<open>ROUND_HALF_DOWN\<close> (5) rounds towards nearest neighbour, if equidistant towards zero.\<close>

datatype RoundingMode = ROUND_DOWN | ROUND_HALF_UP | ROUND_HALF_DOWN

text \<open>Rounding works on the magnitude (the coefficient); the sign is put back after.\<close>

fun round_magnitude :: "RoundingMode \<Rightarrow> rat \<Rightarrow> int" where
  "round_magnitude ROUND_DOWN a = \<lfloor>a\<rfloor>"
| "round_magnitude ROUND_HALF_UP a = \<lfloor>a + 1 / 2\<rfloor>"
| "round_magnitude ROUND_HALF_DOWN a = \<lceil>a - 1 / 2\<rceil>"

definition round_integer :: "RoundingMode \<Rightarrow> rat \<Rightarrow> int" where
  "round_integer rm q = (if q < 0 then - round_magnitude rm (- q) else round_magnitude rm q)"

definition round_places :: "nat \<Rightarrow> RoundingMode \<Rightarrow> rat \<Rightarrow> rat" where
  "round_places dp rm q = of_int (round_integer rm (q * 10 ^ dp)) / 10 ^ dp"

definition DECIMAL_PLACES :: nat where
  "DECIMAL_PLACES = 20"

definition ROUNDING_MODE :: RoundingMode where
  "ROUNDING_MODE = ROUND_HALF_UP"

fun isNaN :: "BigNumber \<Rightarrow> bool" where
  "isNaN NaN = True"
| "isNaN _ = False"

fun isFinite :: "BigNumber \<Rightarrow> bool" where
  "isFinite (Fin q) = True"
| "isFinite _ = False"

fun isZero :: "BigNumber \<Rightarrow> bool" where
  "isZero (Fin q) = (q = 0)"
| "isZero _ = False"

fun isNegative :: "BigNumber \<Rightarrow> bool" where
  "isNegative (Fin q) = (q < 0)"
| "isNegative NInf = True"
| "isNegative _ = False"

fun isInteger :: "BigNumber \<Rightarrow> bool" where
  "isInteger (Fin q) = (q = of_int \<lfloor>q\<rfloor>)"
| "isInteger _ = False"

fun bn_abs :: "BigNumber \<Rightarrow> BigNumber" where
  "bn_abs (Fin q) = Fin \<bar>q\<bar>"
| "bn_abs NInf = PInf"
| "bn_abs x = x"

fun negated :: "BigNumber \<Rightarrow> BigNumber" where
  "negated (Fin q) = Fin (- q)"
| "negated PInf = NInf"
| "negated NInf = PInf"
| "negated NaN = NaN"

text \<open>\<^verbatim>\<open>plus\<close>: NaN if either operand is NaN or the operands are infinities of
  opposite signs; an infinity if either is one; the exact sum otherwise.\<close>

fun bn_plus :: "BigNumber \<Rightarrow> BigNumber \<Rightarrow> BigNumber" where
  "bn_plus NaN _ = NaN"
| "bn_plus _ NaN = NaN"
| "bn_plus (Fin a) (Fin b) = Fin (a + b)"
| "bn_plus PInf NInf = NaN"
| "bn_plus NInf PInf = NaN"
| "bn_plus PInf _ = PInf"
| "bn_plus NInf _ = NInf"
| "bn_plus (Fin a) y = y"

definition bn_minus :: "BigNumber \<Rightarrow> BigNumber \<Rightarrow> BigNumber" where
  "bn_minus x y = bn_plus x (negated y)"

text \<open>\<^verbatim>\<open>multipliedBy\<close>: NaN if either operand is NaN or one is zero and the other an
  infinity; an infinity of the product's sign if either is one; the exact product
  otherwise.\<close>

definition multipliedBy :: "BigNumber \<Rightarrow> BigNumber \<Rightarrow> BigNumber" where
  "multipliedBy x y =
     (case (x, y) of
        (Fin a, Fin b) \<Rightarrow> Fin (a * b)
      | _ \<Rightarrow> if isNaN x \<or> isNaN y \<or> isZero x \<or> isZero y then NaN
             else if isNegative x = isNegative y then PInf else NInf)"

text \<open>The library's division \<^verbatim>\<open>div(x, y, dp, rm)\<close>: NaN if either operand is NaN, both
  are zero or both are infinite; zero if the dividend is zero or the divisor infinite; an
  infinity of the quotient's sign if the dividend is infinite or the divisor zero; else
  the quotient rounded to \<open>dp\<close> decimal places in mode \<open>rm\<close>. Nothing is raised for a
  zero divisor. The sign computed for a zero divisor is that for the divisor \<open>0\<close>; for a
  divisor of negative zero the library returns the other infinity.\<close>

definition bn_div :: "BigNumber \<Rightarrow> BigNumber \<Rightarrow> nat \<Rightarrow> RoundingMode \<Rightarrow> BigNumber" where
  "bn_div x y dp rm =
     (if isNaN x \<or> isNaN y \<or> (isZero x \<and> isZero y) \<or> (\<not> isFinite x \<and> \<not> isFinite y) then NaN
      else if isZero x \<or> \<not> isFinite y then Fin 0
      else case (x, y) of
        (Fin a, Fin b) \<Rightarrow>
          if b = 0 then (if a < 0 then NInf else PInf)
          else Fin (round_places dp rm (a / b))
      | _ \<Rightarrow> if isNegative x = isNegative y then PInf else NInf)"

definition dividedBy :: "BigNumber \<Rightarrow> BigNumber \<Rightarrow> BigNumber" where
  "dividedBy x y = bn_div x y DECIMAL_PLACES ROUNDING_MODE"

definition dividedToIntegerBy :: "BigNumber \<Rightarrow> BigNumber \<Rightarrow> BigNumber" where
  "dividedToIntegerBy x y = bn_div x y 0 ROUND_DOWN"

text \<open>\<^verbatim>\<open>decimalPlaces(dp, rm)\<close> and \<^verbatim>\<open>integerValue(rm)\<close> round a finite value and return
  an infinity or NaN as it is.\<close>

fun decimalPlaces :: "nat \<Rightarrow> RoundingMode \<Rightarrow> BigNumber \<Rightarrow> BigNumber" where
  "decimalPlaces dp rm (Fin q) = Fin (round_places dp rm q)"
| "decimalPlaces dp rm x = x"

fun integerValue :: "RoundingMode \<Rightarrow> BigNumber \<Rightarrow> BigNumber" where
  "integerValue rm (Fin q) = Fin (of_int (round_integer rm q))"
| "integerValue rm x = x"

text \<open>\<^verbatim>\<open>new BigNumber(10).pow(n)\<close> for an integer \<open>n\<close>: exact for \<open>n \<ge> 0\<close>; for a negative
  exponent the library returns one divided by the positive power, rounded as every
  quotient is.\<close>

definition pow10 :: "int \<Rightarrow> BigNumber" where
  "pow10 n = (if 0 \<le> n then Fin (10 ^ nat n) else dividedBy (Fin 1) (Fin (10 ^ nat (- n))))"

text \<open>The library's \<^verbatim>\<open>compare\<close>: no result when either operand is NaN, else \<open>-1\<close>, \<open>0\<close>
  or \<open>1\<close>; an infinity equals itself.\<close>

fun compare :: "BigNumber \<Rightarrow> BigNumber \<Rightarrow> int option" where
  "compare NaN _ = None"
| "compare _ NaN = None"
| "compare (Fin a) (Fin b) = Some (if a < b then - 1 else if a = b then 0 else 1)"
| "compare PInf PInf = Some 0"
| "compare NInf NInf = Some 0"
| "compare PInf _ = Some 1"
| "compare NInf _ = Some (- 1)"
| "compare (Fin a) PInf = Some (- 1)"
| "compare (Fin a) NInf = Some 1"

definition isEqualTo :: "BigNumber \<Rightarrow> BigNumber \<Rightarrow> bool" where
  "isEqualTo x y = (compare x y = Some 0)"

definition isGreaterThanOrEqualTo :: "BigNumber \<Rightarrow> BigNumber \<Rightarrow> bool" where
  "isGreaterThanOrEqualTo x y = (compare x y = Some 1 \<or> compare x y = Some 0)"

subsection \<open>Printing\<close>

text \<open>Digit strings are computed over \<open>int\<close>; the numbers printed are never negative,
  and a digit \<open>d\<close> is below the base, which is 10 or 16.\<close>

definition digit_char :: "int \<Rightarrow> char" where
  "digit_char d = ''0123456789abcdef'' ! nat d"

function to_base :: "int \<Rightarrow> int \<Rightarrow> string" where
  "to_base b n = (if b < 2 \<or> n < b then [digit_char n] else to_base b (n div b) @ [digit_char (n mod b)])"
  by pat_completeness auto
termination
proof (relation "measure (\<lambda>(b, n). nat n)")
  fix b n :: int
  assume "\<not> (b < 2 \<or> n < b)"
  then have "2 \<le> b" and "b \<le> n" by auto
  then have "n div b < n" by (simp add: int_div_less_self)
  then show "((b, n div b), (b, n)) \<in> measure (\<lambda>(b, n). nat n)" using \<open>2 \<le> b\<close> \<open>b \<le> n\<close> by simp
qed simp

declare to_base.simps [simp del]

text \<open>The \<open>k\<close> fraction digits of \<open>n / b ^ k\<close>, for \<open>0 \<le> n < b ^ k\<close>.\<close>

definition fraction_digits :: "int \<Rightarrow> nat \<Rightarrow> int \<Rightarrow> string" where
  "fraction_digits b k n = (let ds = to_base b n in replicate (k - length ds) CHR ''0'' @ ds)"

definition strip_zeros :: "string \<Rightarrow> string" where
  "strip_zeros ds = rev (dropWhile (\<lambda>c. c = CHR ''0'') (rev ds))"

text \<open>\<^verbatim>\<open>toFixed(dp, rm)\<close>: the value rounded to \<open>dp\<close> decimal places in mode \<open>rm\<close>, in
  normal notation with exactly \<open>dp\<close> digits after the point, and no point when \<open>dp\<close> is
  zero. A negative value keeps its sign when it rounds to zero.\<close>

fun toFixed :: "nat \<Rightarrow> RoundingMode \<Rightarrow> BigNumber \<Rightarrow> string" where
  "toFixed dp rm (Fin q) =
     (let n = round_magnitude rm (\<bar>q\<bar> * 10 ^ dp);
          str = to_base 10 (n div 10 ^ dp) @
                (if dp = 0 then [] else ''.'' @ fraction_digits 10 dp (n mod 10 ^ dp))
      in if q < 0 then ''-'' @ str else str)"
| "toFixed dp rm PInf = ''Infinity''"
| "toFixed dp rm NInf = ''-Infinity''"
| "toFixed dp rm NaN = ''NaN''"

text \<open>\<^verbatim>\<open>toString(16)\<close>: the value in base 16 with the digits \<open>0-9a-f\<close>, a fraction
  rounded to \<^verbatim>\<open>DECIMAL_PLACES\<close> digits of that base and printed without trailing zeros,
  and the sign in front. The theorems below use it at integers only.\<close>

fun toString16 :: "BigNumber \<Rightarrow> string" where
  "toString16 (Fin q) =
     (let n = round_magnitude ROUNDING_MODE (\<bar>q\<bar> * 16 ^ DECIMAL_PLACES);
          fr = strip_zeros (fraction_digits 16 DECIMAL_PLACES (n mod 16 ^ DECIMAL_PLACES));
          str = to_base 16 (n div 16 ^ DECIMAL_PLACES) @ (if fr = [] then [] else ''.'' @ fr)
      in if q < 0 then ''-'' @ str else str)"
| "toString16 PInf = ''Infinity''"
| "toString16 NInf = ''-Infinity''"
| "toString16 NaN = ''NaN''"

section \<open>Units\<close>

text \<open>A \<^verbatim>\<open>Unit\<close> is an object with a name and its number of weis. The Wei class compares
  units by identity (\<^verbatim>\<open>unit !== Units.WEI\<close>), so the seven constants of \<^verbatim>\<open>Units\<close> are
  constructors of their own, and \<open>Custom\<close> is any other unit object a caller builds.\<close>

datatype Unit = ETHER | MILLI | MICRO | GWEI | MWEI | KWEI | WEI | Custom string BigNumber


fun weis :: "Unit \<Rightarrow> BigNumber" where
  "weis ETHER = pow10 18"
| "weis MILLI = pow10 15"
| "weis MICRO = pow10 12"
| "weis GWEI = pow10 9"
| "weis MWEI = pow10 6"
| "weis KWEI = pow10 3"
| "weis WEI = pow10 0"
| "weis (Custom n w) = w"

definition ALL_UNITS :: "Unit list" where
  "ALL_UNITS = [ETHER, MILLI, MICRO, GWEI, MWEI, KWEI, WEI]"

definition ZERO_NUM :: BigNumber where
  "ZERO_NUM = Fin 0"

section \<open>The Wei class\<close>

record Wei =
  "value" :: BigNumber

text \<open>Modelled from the spec: \<^verbatim>\<open>convert.toBigNumber\<close>, whose module is not among the
  sources. The spec has the constructor accept a number, a numeric string or an
  arbitrary-precision value; the argument is given here as the BigNumber it denotes, and
  a BigNumber instance (what every method of the class passes) is taken as it is.\<close>

definition toBigNumber :: "BigNumber \<Rightarrow> BigNumber" where
  "toBigNumber val = val"

text \<open>\<^verbatim>\<open>constructor(val, unit = Units.WEI)\<close>\<close>

definition new_Wei :: "BigNumber \<Rightarrow> Unit \<Rightarrow> Wei" where
  "new_Wei val unit =
     (let v = toBigNumber val;
          v = (if unit \<noteq> WEI then decimalPlaces 0 ROUND_HALF_DOWN (multipliedBy v (weis unit)) else v);
          v = integerValue ROUND_HALF_DOWN v
      in \<lparr>value = v\<rparr>)"

text \<open>\<^verbatim>\<open>mul\<close> and \<^verbatim>\<open>divide\<close> take a number or a BigNumber; a number is turned into the
  BigNumber it denotes first, so the argument is that BigNumber.\<close>

definition Wei_mul :: "Wei \<Rightarrow> BigNumber \<Rightarrow> Wei" where
  "Wei_mul this another = new_Wei (multipliedBy (value this) another) WEI"

definition Wei_divide :: "Wei \<Rightarrow> BigNumber \<Rightarrow> Wei" where
  "Wei_divide this another = new_Wei (dividedToIntegerBy (value this) another) WEI"

definition Wei_plus :: "Wei \<Rightarrow> Wei \<Rightarrow> Wei" where
  "Wei_plus this another = new_Wei (bn_plus (value this) (value another)) WEI"

definition Wei_sub :: "Wei \<Rightarrow> Wei \<Rightarrow> Wei" where
  "Wei_sub this another = new_Wei (bn_minus (value this) (value another)) WEI"

definition Wei_minus :: "Wei \<Rightarrow> Wei \<Rightarrow> Wei" where
  "Wei_minus this another = Wei_sub this another"

text \<open>\<^verbatim>\<open>getUnit(digits = 0, accepted = ALL_UNITS)\<close>; \<^verbatim>\<open>accepted.find\<close> returns the first
  element that satisfies the test, or \<^verbatim>\<open>undefined\<close>.\<close>

definition Wei_getUnit :: "Wei \<Rightarrow> int \<Rightarrow> Unit list \<Rightarrow> Unit" where
  "Wei_getUnit this digits accepted =
     (if isEqualTo (value this) ZERO_NUM then ETHER
      else let del = pow10 digits in
        case find (\<lambda>u. isGreaterThanOrEqualTo (value this) (dividedBy (weis u) del)) accepted of
          Some unit \<Rightarrow> unit
        | None \<Rightarrow> WEI)"

text \<open>\<^verbatim>\<open>isNegative\<close> guards the library's sign test with \<^verbatim>\<open>!this.isZero()\<close>, because the
  library's test is true of a negative zero; the zero of the model is not negative.\<close>

definition Wei_isZero :: "Wei \<Rightarrow> bool" where
  "Wei_isZero this = isZero (value this)"

definition Wei_isNegative :: "Wei \<Rightarrow> bool" where
  "Wei_isNegative this = (isNegative (value this) \<and> \<not> Wei_isZero this)"

definition Wei_equals :: "Wei \<Rightarrow> Wei \<Rightarrow> bool" where
  "Wei_equals this another = isEqualTo (value this) (value another)"

definition Wei_toHex :: "Wei \<Rightarrow> string" where
  "Wei_toHex this =
     (if Wei_isNegative this then ''-'' else []) @ ''0x'' @ toString16 (bn_abs (value this))"

definition Wei_toUnit :: "Wei \<Rightarrow> Unit \<Rightarrow> BigNumber" where
  "Wei_toUnit this unit = (if unit = WEI then value this else dividedBy (value this) (weis unit))"








section \<open>The format module\<close>

text \<open>\<^verbatim>\<open>toHex(val)\<close> of the format module; \<open>val\<close> is given as the BigNumber that
  \<^verbatim>\<open>new BigNumber(val)\<close> builds.\<close>

definition format_toHex :: "BigNumber \<Rightarrow> string" where
  "format_toHex val = (let hex = toString16 val in ''0x'' @ hex)"

section \<open>Reference definitions from the specification\<close>

text \<open>The specification's glossary reads round-half-down as: on an exact tie between two
  representable values, round toward the more negative one.\<close>

definition nearest_ties_negative_spec :: "rat \<Rightarrow> int" where
  "nearest_ties_negative_spec q = \<lceil>q - 1 / 2\<rceil>"

text \<open>The specification's \<^verbatim>\<open>divide\<close>: the quotient truncated toward zero, and the error
  \<^verbatim>\<open>DivisionByZero\<close> for a zero divisor. It is written over the integer magnitude of the
  specification's Wei value and a finite scalar.\<close>

datatype WeiError = InvalidNumericInput | DivisionByZero

definition truncate_spec :: "rat \<Rightarrow> int" where
  "truncate_spec q = (if 0 \<le> q then \<lfloor>q\<rfloor> else \<lceil>q\<rceil>)"

definition divide_spec :: "int \<Rightarrow> rat \<Rightarrow> WeiError + int" where
  "divide_spec m d = (if d = 0 then Inl DivisionByZero else Inr (truncate_spec (of_int m / d)))"

text \<open>The specification's \<^verbatim>\<open>selectDisplayUnit\<close>, over the integer magnitude and with exact
  division: the largest unit for zero; else the first candidate whose atomic multiple
  divided by \<open>10 ^ precisionDigits\<close> is at most the magnitude; else the atomic unit.\<close>

definition atomic_multiple :: "Unit \<Rightarrow> rat" where
  "atomic_multiple u = (case weis u of Fin w \<Rightarrow> w | _ \<Rightarrow> 0)"

definition selectDisplayUnit_spec :: "int \<Rightarrow> nat \<Rightarrow> Unit list \<Rightarrow> Unit" where
  "selectDisplayUnit_spec m precisionDigits candidates =
     (if m = 0 then ETHER
      else case find (\<lambda>u. atomic_multiple u / 10 ^ precisionDigits \<le> of_int m) candidates of
        Some u \<Rightarrow> u
      | None \<Rightarrow> WEI)"

text \<open>Reading a string of digits back as a number: the value of a digit is its place in
  \<open>0123456789abcdef\<close>.\<close>

definition hex_digits :: string where
  "hex_digits = ''0123456789abcdef''"


definition hex_digit_value :: "char \<Rightarrow> int" where
  "hex_digit_value c = int (length (takeWhile (\<lambda>d. d \<noteq> c) hex_digits))"

definition digits_value :: "int \<Rightarrow> string \<Rightarrow> int" where
  "digits_value b ds = foldl (\<lambda>acc c. b * acc + hex_digit_value c) 0 ds"

definition hex_value :: "string \<Rightarrow> int" where
  "hex_value ds = digits_value 16 ds"



section \<open>Chain detection\<close>

text \<open>Modelled from the spec: \<^verbatim>\<open>NodeChecker.check\<close> and its registry of reference block
  hashes. The module \<^verbatim>\<open>nodeChecker\<close> and the RPC classes it calls are not among the
  sources; only the test \<^verbatim>\<open>nodeChecker.test.js\<close> is. The registry is a parameter: a list
  of reference block hash, chain name and chain id. The transport's promise is a sum, the
  rejection on the left; a resolved response holds the hash, if it has one. The promise
  that \<^verbatim>\<open>check\<close> returns is a sum in the same way.\<close>

type_synonym ChainRegistry = "(string \<times> string \<times> nat) list"

record ChainResult =
  chain :: string
  chainId :: nat

text \<open>Modelled from the spec: the returned hash is normalized for a case-insensitive
  comparison.\<close>

definition lower_char :: "char \<Rightarrow> char" where
  "lower_char c = (let n = of_char c :: nat in if 65 \<le> n \<and> n \<le> 90 then char_of (n + 32) else c)"

definition normalize_hash :: "string \<Rightarrow> string" where
  "normalize_hash h = map lower_char h"

text \<open>Modelled from the spec: the implicit record used when no reference hash matches.\<close>

definition unknown_chain :: ChainResult where
  "unknown_chain = \<lparr>chain = ''unknown'', chainId = 0\<rparr>"

text \<open>Modelled from the spec: the lookup of the normalized hash in the registry; a match
  gives the record's name and id, no match the unknown chain.\<close>

definition lookup_chain :: "ChainRegistry \<Rightarrow> string \<Rightarrow> ChainResult" where
  "lookup_chain registry hash =
     (case find (\<lambda>(h, n, i). normalize_hash h = normalize_hash hash) registry of
        Some (h, n, i) \<Rightarrow> \<lparr>chain = n, chainId = i\<rparr>
      | None \<Rightarrow> unknown_chain)"

text \<open>Modelled from the spec: \<^verbatim>\<open>check()\<close>. A failure of the transport call is passed on
  unchanged; a response without the hash is classified as unknown; a hash is looked up.\<close>

definition check :: "ChainRegistry \<Rightarrow> 'e + string option \<Rightarrow> 'e + ChainResult" where
  "check registry response =
     (case response of
        Inl err \<Rightarrow> Inl err
      | Inr None \<Rightarrow> Inr unknown_chain
      | Inr (Some hash) \<Rightarrow> Inr (lookup_chain registry hash))"

section \<open>Rounding\<close>

lemma round_magnitude_of_int: "round_magnitude rm (of_int k) = k"
  by (cases rm) (simp_all, linarith+)

lemma round_integer_of_int: "round_integer rm (of_int k) = k"
proof -
  have "round_magnitude rm (- of_int k) = - k"
    using round_magnitude_of_int [of rm "- k"] by simp
  then show ?thesis
    by (simp add: round_integer_def round_magnitude_of_int)
qed

lemma round_places_0: "round_places 0 rm q = of_int (round_integer rm q)"
  by (simp add: round_places_def)

lemma half_down_magnitude:
  fixes a :: rat
  assumes "0 \<le> a"
  defines "m \<equiv> round_magnitude ROUND_HALF_DOWN a"
  shows "0 \<le> m" and "\<bar>of_int m - a\<bar> \<le> 1 / 2" and "\<bar>of_int m - a\<bar> = 1 / 2 \<Longrightarrow> of_int m < a"
proof -
  have m: "m = \<lceil>a - 1 / 2\<rceil>" by (simp add: m_def)
  have up: "of_int m - 1 < a - 1 / 2" unfolding m by linarith
  have lo: "a - 1 / 2 \<le> of_int m" unfolding m by linarith
  from lo assms(1) have "(of_int (- 1) :: rat) < of_int m" by simp
  then have "- 1 < m" by (simp only: of_int_less_iff)
  then show "0 \<le> m" by simp
  from up lo show "\<bar>of_int m - a\<bar> \<le> 1 / 2" by linarith
  assume "\<bar>of_int m - a\<bar> = 1 / 2"
  with up lo show "of_int m < a" by linarith
qed

lemma round_half_down_nearest:
  fixes q :: rat
  defines "n \<equiv> round_integer ROUND_HALF_DOWN q"
  shows "\<bar>of_int n - q\<bar> \<le> 1 / 2" and "\<bar>of_int n - q\<bar> = 1 / 2 \<Longrightarrow> \<bar>of_int n :: rat\<bar> < \<bar>q\<bar>"
proof -
  define m where "m = round_magnitude ROUND_HALF_DOWN \<bar>q\<bar>"
  have n: "n = (if q < 0 then - m else m)"
    by (simp add: n_def m_def round_integer_def)
  have m0: "0 \<le> m" and near: "\<bar>of_int m - \<bar>q\<bar>\<bar> \<le> 1 / 2"
    unfolding m_def by (rule half_down_magnitude, simp)+
  have m0': "(0::rat) \<le> of_int m" using m0 by simp
  show "\<bar>of_int n - q\<bar> \<le> 1 / 2"
  proof (cases "q < 0")
    case True
    then have "of_int n = - (of_int m :: rat)" by (simp add: n)
    with near True show ?thesis by linarith
  next
    case False
    then have "of_int n = (of_int m :: rat)" by (simp add: n)
    with near False show ?thesis by linarith
  qed
  assume tie: "\<bar>of_int n - q\<bar> = 1 / 2"
  have "\<bar>of_int m - \<bar>q\<bar>\<bar> = 1 / 2"
  proof (cases "q < 0")
    case True
    then have "of_int n = - (of_int m :: rat)" by (simp add: n)
    with tie True show ?thesis by linarith
  next
    case False
    then have "of_int n = (of_int m :: rat)" by (simp add: n)
    with tie False show ?thesis by linarith
  qed
  then have "of_int m < \<bar>q\<bar>"
    unfolding m_def by (rule half_down_magnitude(3) [rotated]) simp
  moreover have "\<bar>of_int n :: rat\<bar> = of_int m"
    using m0' by (simp add: n)
  ultimately show "\<bar>of_int n :: rat\<bar> < \<bar>q\<bar>" by simp
qed

section \<open>Construction from a unit-scaled input\<close>

text \<open>
  Claim C1, as amended. For a finite input \<open>x\<close> and a unit other than \<^verbatim>\<open>Units.WEI\<close> with
  \<open>w\<close> weis, the constructor stores an integer nearest to \<open>x * w\<close>, and on an exact tie the
  one nearer to zero: \<^verbatim>\<open>ROUND_HALF_DOWN\<close> of bignumber.js rounds ties towards zero, not
  towards the more negative value.
\<close>

theorem new_Wei_scaled_rounds_ties_to_zero:
  assumes "unit \<noteq> WEI" and "weis unit = Fin w"
  shows "\<exists>n :: int. value (new_Wei (Fin x) unit) = Fin (of_int n)
           \<and> \<bar>of_int n - x * w\<bar> \<le> 1 / 2
           \<and> (\<bar>of_int n - x * w\<bar> = 1 / 2 \<longrightarrow> \<bar>of_int n :: rat\<bar> < \<bar>x * w\<bar>)"
proof -
  let ?n = "round_integer ROUND_HALF_DOWN (x * w)"
  have "value (new_Wei (Fin x) unit) = Fin (of_int ?n)"
    using assms
    by (simp add: new_Wei_def toBigNumber_def multipliedBy_def round_places_0 round_integer_of_int)
  with round_half_down_nearest [of "x * w"] show ?thesis by blast
qed

theorem new_Wei_scaled_rounds_ties_to_zero_witness:
  "KWEI \<noteq> WEI \<and> weis KWEI = Fin 1000 \<and>
   (\<exists>n :: int. value (new_Wei (Fin (- 5 / 10000)) KWEI) = Fin (of_int n)
           \<and> \<bar>of_int n - (- 5 / 10000) * 1000\<bar> \<le> (1 / 2 :: rat)
           \<and> (\<bar>of_int n - (- 5 / 10000) * 1000\<bar> = (1 / 2 :: rat) \<longrightarrow> \<bar>of_int n :: rat\<bar> < \<bar>(- 5 / 10000) * 1000\<bar>))"
proof -
  have u: "KWEI \<noteq> WEI" by simp
  have w: "weis KWEI = Fin 1000" by (simp add: pow10_def)
  from new_Wei_scaled_rounds_ties_to_zero [OF u w, of "- 5 / 10000"] u w show ?thesis by blast
qed

text \<open>The claim as the specification words it fails at \<^verbatim>\<open>new Wei(-0.0005, Units.KWEI)\<close>,
  that is at \<open>-0.5\<close> weis: the stored value is \<open>0\<close>, where rounding the tie toward the more
  negative value would give \<open>-1\<close>.\<close>

theorem new_Wei_negative_tie_counterexample:
  "value (new_Wei (Fin (- 5 / 10000)) KWEI) = Fin 0 \<and>
   value (new_Wei (Fin (- 5 / 10000)) KWEI)
     \<noteq> Fin (of_int (nearest_ties_negative_spec ((- 5 / 10000) * 1000)))"
  by code_simp

section \<open>Division by a scalar\<close>

lemma round_down_truncates: "round_integer ROUND_DOWN q = truncate_spec q"
proof (cases "q < 0")
  case True
  have "- \<lfloor>- q\<rfloor> = \<lceil>q\<rceil>" by (simp add: ceiling_def)
  with True show ?thesis by (simp add: round_integer_def truncate_spec_def)
next
  case False
  then show ?thesis by (simp add: round_integer_def truncate_spec_def)
qed

lemma integerValue_of_int: "integerValue rm (Fin (of_int k)) = Fin (of_int k)"
  by (simp add: round_integer_of_int)

lemma new_Wei_WEI_of_int: "new_Wei (Fin (of_int k)) WEI = \<lparr>value = Fin (of_int k)\<rparr>"
  by (simp add: new_Wei_def toBigNumber_def round_integer_of_int)

lemma new_Wei_WEI_not_finite: "\<not> isFinite x \<Longrightarrow> new_Wei x WEI = \<lparr>value = x\<rparr>"
  by (cases x) (simp_all add: new_Wei_def toBigNumber_def)

lemma dividedToIntegerBy_finite:
  "d \<noteq> 0 \<Longrightarrow> dividedToIntegerBy (Fin a) (Fin d) = Fin (of_int (truncate_spec (a / d)))"
  by (simp add: dividedToIntegerBy_def bn_div_def round_places_0 round_down_truncates truncate_spec_def)

lemma dividedToIntegerBy_zero: "\<not> isFinite (dividedToIntegerBy x (Fin 0))"
  by (cases x) (simp_all add: dividedToIntegerBy_def bn_div_def)

text \<open>
  Claim C2, as amended. For a finite value and a finite non-zero divisor, \<^verbatim>\<open>divide\<close>
  returns a new Wei holding the quotient truncated toward zero. For the divisor zero it
  raises nothing: it returns a Wei whose value is not finite, NaN for a zero dividend and
  an infinity otherwise.
\<close>

theorem Wei_divide_truncates_and_zero_divisor:
  "(value this = Fin a \<and> d \<noteq> 0 \<longrightarrow>
      Wei_divide this (Fin d) = \<lparr>value = Fin (of_int (truncate_spec (a / d)))\<rparr>)
   \<and> \<not> isFinite (value (Wei_divide this (Fin 0)))
   \<and> (value this = Fin a \<longrightarrow>
      (if a = 0 then value (Wei_divide this (Fin 0)) = NaN
       else value (Wei_divide this (Fin 0)) \<in> {PInf, NInf}))"
proof (intro conjI impI)
  assume "value this = Fin a \<and> d \<noteq> 0"
  then show "Wei_divide this (Fin d) = \<lparr>value = Fin (of_int (truncate_spec (a / d)))\<rparr>"
    by (simp add: Wei_divide_def dividedToIntegerBy_finite new_Wei_WEI_of_int)
next
  show "\<not> isFinite (value (Wei_divide this (Fin 0)))"
    using dividedToIntegerBy_zero [of "value this"]
    by (simp add: Wei_divide_def new_Wei_WEI_not_finite)
next
  assume "value this = Fin a"
  then show "if a = 0 then value (Wei_divide this (Fin 0)) = NaN
       else value (Wei_divide this (Fin 0)) \<in> {PInf, NInf}"
    by (simp add: Wei_divide_def dividedToIntegerBy_def bn_div_def new_Wei_def toBigNumber_def)
qed

theorem Wei_divide_truncates_and_zero_divisor_witness:
  "value (new_Wei (Fin (- 7)) WEI) = Fin (- 7) \<and> (2::rat) \<noteq> 0
   \<and> Wei_divide (new_Wei (Fin (- 7)) WEI) (Fin 2) = \<lparr>value = Fin (- 3)\<rparr>
   \<and> \<not> isFinite (value (Wei_divide (new_Wei (Fin (- 7)) WEI) (Fin 0)))
   \<and> value (Wei_divide (new_Wei (Fin (- 7)) WEI) (Fin 0)) \<in> {PInf, NInf}"
proof -
  have v: "value (new_Wei (Fin (- 7)) WEI) = Fin (- 7)" by code_simp
  have t: "truncate_spec (- 7 / 2) = - 3" by code_simp
  from Wei_divide_truncates_and_zero_divisor [of "new_Wei (Fin (- 7)) WEI" "- 7" 2] v t
  show ?thesis by simp
qed

text \<open>The claim as worded fails at \<^verbatim>\<open>new Wei(1).divide(0)\<close>: the specification's
  \<^verbatim>\<open>divide\<close> signals \<^verbatim>\<open>DivisionByZero\<close> there, the code returns a Wei holding
  \<^verbatim>\<open>Infinity\<close> (the divisor is the number \<open>0\<close>).\<close>

theorem Wei_divide_by_zero_counterexample:
  "divide_spec 1 0 = Inl DivisionByZero \<and>
   Wei_divide (new_Wei (Fin 1) WEI) (Fin 0) = \<lparr>value = PInf\<rparr>"
  by code_simp

section \<open>The stored value is an integer\<close>

lemma isInteger_integerValue: "isInteger (integerValue rm (Fin q))"
  by simp

lemma isInteger_new_Wei:
  assumes "isFinite val" and "isFinite (weis unit)"
  shows "isInteger (value (new_Wei val unit))"
proof -
  obtain x w where "val = Fin x" and "weis unit = Fin w"
    using assms by (cases val; cases "weis unit") simp_all
  then show ?thesis
    by (simp add: new_Wei_def toBigNumber_def multipliedBy_def Let_def)
qed

lemma isInteger_new_Wei_WEI: "isFinite val \<Longrightarrow> isInteger (value (new_Wei val WEI))"
  by (cases val) (simp_all add: new_Wei_def toBigNumber_def Let_def)

text \<open>
  Claim C9, as amended. Construction from a finite input (with a unit of finitely many
  weis) and \<^verbatim>\<open>mul\<close>, \<^verbatim>\<open>divide\<close>, \<^verbatim>\<open>plus\<close>, \<^verbatim>\<open>sub\<close> and \<^verbatim>\<open>minus\<close> on finite operands, the
  divisor not zero, store an integer, also when \<^verbatim>\<open>mul\<close> is given a fraction: every result
  goes through the constructor's rounding. The constructor passes NaN and the infinities
  through, so a division by zero stores a value that is no integer.
\<close>

theorem Wei_operations_store_integers:
  "(isFinite (weis unit) \<longrightarrow> isInteger (value (new_Wei (Fin x) unit)))
   \<and> (value this = Fin a \<longrightarrow> isInteger (value (Wei_mul this (Fin s))))
   \<and> (value this = Fin a \<and> d \<noteq> 0 \<longrightarrow> isInteger (value (Wei_divide this (Fin d))))
   \<and> (value this = Fin a \<and> value another = Fin b \<longrightarrow>
        isInteger (value (Wei_plus this another))
        \<and> isInteger (value (Wei_sub this another))
        \<and> isInteger (value (Wei_minus this another)))"
proof (intro conjI impI)
  assume "isFinite (weis unit)"
  then show "isInteger (value (new_Wei (Fin x) unit))"
    by (simp add: isInteger_new_Wei)
next
  assume "value this = Fin a"
  then show "isInteger (value (Wei_mul this (Fin s)))"
    by (simp add: Wei_mul_def multipliedBy_def isInteger_new_Wei_WEI)
next
  assume "value this = Fin a \<and> d \<noteq> 0"
  then show "isInteger (value (Wei_divide this (Fin d)))"
    by (simp add: Wei_divide_def dividedToIntegerBy_finite isInteger_new_Wei_WEI)
next
  assume fin: "value this = Fin a \<and> value another = Fin b"
  then show "isInteger (value (Wei_plus this another))"
    by (simp add: Wei_plus_def isInteger_new_Wei_WEI)
  from fin show "isInteger (value (Wei_sub this another))"
    by (simp add: Wei_sub_def bn_minus_def isInteger_new_Wei_WEI)
  from fin show "isInteger (value (Wei_minus this another))"
    by (simp add: Wei_minus_def Wei_sub_def bn_minus_def isInteger_new_Wei_WEI)
qed

theorem Wei_operations_store_integers_witness:
  "isFinite (weis ETHER) \<and> isInteger (value (new_Wei (Fin (15 / 10)) ETHER))
   \<and> value (new_Wei (Fin 3) WEI) = Fin 3 \<and> value (new_Wei (Fin 2) WEI) = Fin 2 \<and> (2::rat) \<noteq> 0
   \<and> isInteger (value (Wei_mul (new_Wei (Fin 3) WEI) (Fin (1 / 2))))
   \<and> isInteger (value (Wei_divide (new_Wei (Fin 3) WEI) (Fin 2)))
   \<and> isInteger (value (Wei_plus (new_Wei (Fin 3) WEI) (new_Wei (Fin 2) WEI)))
   \<and> isInteger (value (Wei_sub (new_Wei (Fin 3) WEI) (new_Wei (Fin 2) WEI)))
   \<and> isInteger (value (Wei_minus (new_Wei (Fin 3) WEI) (new_Wei (Fin 2) WEI)))"
proof -
  have e: "isFinite (weis ETHER)" by (simp add: pow10_def)
  have v3: "value (new_Wei (Fin 3) WEI) = Fin 3" by code_simp
  have v2: "value (new_Wei (Fin 2) WEI) = Fin 2" by code_simp
  from Wei_operations_store_integers
    [of ETHER "15 / 10" "new_Wei (Fin 3) WEI" 3 "1 / 2" 2 "new_Wei (Fin 2) WEI" 2] e v3 v2
  show ?thesis by simp
qed

text \<open>The claim as worded fails at \<^verbatim>\<open>new Wei(7).divide(0)\<close>, whose stored value is
  \<^verbatim>\<open>Infinity\<close>: \<^verbatim>\<open>isInteger\<close> is false of it.\<close>

theorem Wei_divide_by_zero_not_integer_counterexample:
  "\<not> isInteger (value (Wei_divide (new_Wei (Fin 7) WEI) (Fin 0)))"
  by code_simp

section \<open>Addition and subtraction\<close>

lemma bn_plus_not_finite: "\<not> isFinite y \<Longrightarrow> \<not> isFinite (bn_plus x y)"
  by (cases x; cases y) simp_all

lemma bn_minus_same_not_finite: "\<not> isFinite y \<Longrightarrow> \<not> isFinite x \<Longrightarrow> x = NaN \<or> x = y \<Longrightarrow> bn_minus x y = NaN"
  by (cases x; cases y) (simp_all add: bn_minus_def)

lemma bn_plus_not_finite_cases: "\<not> isFinite y \<Longrightarrow> bn_plus x y = NaN \<or> bn_plus x y = y"
  by (cases x; cases y) simp_all

text \<open>
  Claim C8, as amended. For Wei values \<open>a\<close> and \<open>b\<close> that hold integers, of any size,
  \<^verbatim>\<open>a.plus(b).minus(b).equals(a)\<close> holds, and the sum stored by \<^verbatim>\<open>plus\<close> is the exact
  integer sum: nothing overflows. When \<open>b\<close> holds NaN or an infinity, as the result of a
  division by zero does, the equation fails for every \<open>a\<close>.
\<close>

theorem Wei_plus_minus_inverse:
  "(value a = Fin (of_int x) \<and> value b = Fin (of_int y) \<longrightarrow>
      Wei_equals (Wei_minus (Wei_plus a b) b) a
      \<and> value (Wei_plus a b) = Fin (of_int (x + y))
      \<and> value (Wei_minus (Wei_plus a b) b) = Fin (of_int x))
   \<and> (\<not> isFinite (value b) \<longrightarrow> \<not> Wei_equals (Wei_minus (Wei_plus a b) b) a)"
proof (intro conjI impI)
  assume h: "value a = Fin (of_int x) \<and> value b = Fin (of_int y)"
  have sum: "Wei_plus a b = \<lparr>value = Fin (of_int (x + y))\<rparr>"
    using h new_Wei_WEI_of_int [of "x + y"] by (simp add: Wei_plus_def)
  have restored: "Wei_minus (Wei_plus a b) b = \<lparr>value = Fin (of_int x)\<rparr>"
    using h new_Wei_WEI_of_int [of x] by (simp add: sum Wei_minus_def Wei_sub_def bn_minus_def)
  show "Wei_equals (Wei_minus (Wei_plus a b) b) a"
    using h by (simp add: restored Wei_equals_def isEqualTo_def)
  show "value (Wei_plus a b) = Fin (of_int (x + y))"
    by (simp add: sum)
  show "value (Wei_minus (Wei_plus a b) b) = Fin (of_int x)"
    by (simp add: restored)
next
  assume b: "\<not> isFinite (value b)"
  let ?s = "bn_plus (value a) (value b)"
  have s: "\<not> isFinite ?s" using b by (rule bn_plus_not_finite)
  then have sum: "Wei_plus a b = \<lparr>value = ?s\<rparr>"
    by (simp add: Wei_plus_def new_Wei_WEI_not_finite)
  have "?s = NaN \<or> ?s = value b" using b by (rule bn_plus_not_finite_cases)
  with b s have "bn_minus ?s (value b) = NaN" by (rule bn_minus_same_not_finite)
  then have "Wei_minus (Wei_plus a b) b = \<lparr>value = NaN\<rparr>"
    by (simp add: sum Wei_minus_def Wei_sub_def new_Wei_WEI_not_finite)
  then show "\<not> Wei_equals (Wei_minus (Wei_plus a b) b) a"
    by (simp add: Wei_equals_def isEqualTo_def)
qed

theorem Wei_plus_minus_inverse_witness:
  "Wei_equals (Wei_minus (Wei_plus \<lparr>value = Fin (10 ^ 30)\<rparr> \<lparr>value = Fin (- 7)\<rparr>) \<lparr>value = Fin (- 7)\<rparr>)
     \<lparr>value = Fin (10 ^ 30)\<rparr>
   \<and> value (Wei_plus \<lparr>value = Fin (10 ^ 30)\<rparr> \<lparr>value = Fin (- 7)\<rparr>) = Fin (10 ^ 30 - 7)
   \<and> \<not> isFinite (value \<lparr>value = NaN\<rparr>)
   \<and> \<not> Wei_equals (Wei_minus (Wei_plus \<lparr>value = Fin 1\<rparr> \<lparr>value = NaN\<rparr>) \<lparr>value = NaN\<rparr>) \<lparr>value = Fin 1\<rparr>"
  using Wei_plus_minus_inverse [of "\<lparr>value = Fin (10 ^ 30)\<rparr>" "10 ^ 30" "\<lparr>value = Fin (- 7)\<rparr>" "- 7"]
    Wei_plus_minus_inverse [of "\<lparr>value = Fin 1\<rparr>" 0 "\<lparr>value = NaN\<rparr>" 0]
  by simp

text \<open>The claim as worded fails at \<open>a\<close> = \<^verbatim>\<open>new Wei(1)\<close> and \<open>b\<close> =
  \<^verbatim>\<open>new Wei(1).divide(0)\<close>: \<open>b\<close> holds an infinity, \<^verbatim>\<open>a.plus(b)\<close> holds the same infinity,
  \<^verbatim>\<open>minus(b)\<close> gives NaN, and \<^verbatim>\<open>equals\<close> is false of NaN.\<close>

theorem Wei_plus_minus_infinity_counterexample:
  "\<not> Wei_equals
       (Wei_minus (Wei_plus (new_Wei (Fin 1) WEI) (Wei_divide (new_Wei (Fin 1) WEI) (Fin 0)))
          (Wei_divide (new_Wei (Fin 1) WEI) (Fin 0)))
       (new_Wei (Fin 1) WEI)"
  by code_simp

section \<open>Conversion to a unit\<close>

lemma round_places_exact:
  assumes "q * 10 ^ dp = of_int z"
  shows "round_places dp rm q = q"
proof -
  have "round_places dp rm q = of_int z / 10 ^ dp"
    by (simp add: round_places_def assms round_integer_of_int)
  also have "\<dots> = q"
    using assms [symmetric] by simp
  finally show ?thesis .
qed

lemma round_places_power_of_ten:
  assumes "k \<le> D"
  shows "round_places D rm (of_int m / 10 ^ k) = of_int m / 10 ^ k"
proof -
  have "(10::rat) ^ D = 10 ^ (D - k) * 10 ^ k"
    using assms by (simp flip: power_add)
  then have "of_int m / 10 ^ k * 10 ^ D = (of_int (m * 10 ^ (D - k)) :: rat)"
    by simp
  then show ?thesis
    by (rule round_places_exact)
qed

lemma dividedBy_power_of_ten:
  assumes "k \<le> 20"
  shows "dividedBy (Fin (of_int m)) (Fin (10 ^ k)) = Fin (of_int m / 10 ^ k)"
proof -
  have "k \<le> DECIMAL_PLACES"
    using assms by (simp add: DECIMAL_PLACES_def)
  then have "round_places DECIMAL_PLACES ROUNDING_MODE (of_int m / 10 ^ k) = of_int m / 10 ^ k"
    by (rule round_places_power_of_ten)
  then show ?thesis
    by (simp add: dividedBy_def bn_div_def)
qed

lemma ALL_UNITS_weis:
  assumes "unit \<in> set ALL_UNITS"
  shows "\<exists>k \<le> 18. weis unit = Fin (10 ^ k)"
proof -
  have "\<exists>k \<le> 18. weis u = Fin (10 ^ k)"
    if "u = ETHER \<or> u = MILLI \<or> u = MICRO \<or> u = GWEI \<or> u = MWEI \<or> u = KWEI \<or> u = WEI" for u
  proof -
    have "weis u = Fin (10 ^ (if u = ETHER then 18 else if u = MILLI then 15 else if u = MICRO then 12
            else if u = GWEI then 9 else if u = MWEI then 6 else if u = KWEI then 3 else 0))"
      using that by (auto simp add: pow10_def)
    then show ?thesis
      by (intro exI [of _ "if u = ETHER then 18 else if u = MILLI then 15 else if u = MICRO then 12
            else if u = GWEI then 9 else if u = MWEI then 6 else if u = KWEI then 3 else 0"]) simp
  qed
  then show ?thesis
    using assms by (simp add: ALL_UNITS_def)
qed

text \<open>
  Claim C7. For every Wei value, \<^verbatim>\<open>toUnit(Units.WEI)\<close> is the stored value itself,
  whatever operations produced it; and for every unit of the table \<^verbatim>\<open>Units\<close>, with \<open>w\<close>
  weis, \<^verbatim>\<open>toUnit\<close> of a Wei holding the integer \<open>m\<close> is the exact quotient \<open>m / w\<close>: the
  quotient has at most 18 decimal places, fewer than the 20 the library's division keeps.
\<close>

theorem Wei_toUnit_exact:
  "Wei_toUnit this WEI = value this
   \<and> (unit \<in> set ALL_UNITS \<and> weis unit = Fin w \<and> value this = Fin (of_int m) \<longrightarrow>
        Wei_toUnit this unit = Fin (of_int m / w))"
proof (intro conjI impI)
  show "Wei_toUnit this WEI = value this"
    by (simp add: Wei_toUnit_def)
next
  assume h: "unit \<in> set ALL_UNITS \<and> weis unit = Fin w \<and> value this = Fin (of_int m)"
  then obtain k where k: "k \<le> 18" "weis unit = Fin (10 ^ k)"
    using ALL_UNITS_weis by blast
  with h have w: "w = 10 ^ k" by simp
  show "Wei_toUnit this unit = Fin (of_int m / w)"
  proof (cases "unit = WEI")
    case True
    with h have "w = 1" by (simp add: pow10_def)
    with True h show ?thesis by (simp add: Wei_toUnit_def)
  next
    case False
    have "dividedBy (Fin (of_int m)) (Fin (10 ^ k)) = Fin (of_int m / 10 ^ k)"
      using k(1) by (intro dividedBy_power_of_ten) simp
    with False h k w show ?thesis by (simp add: Wei_toUnit_def)
  qed
qed

theorem Wei_toUnit_exact_witness:
  "Wei_toUnit \<lparr>value = Fin 12345\<rparr> WEI = Fin 12345
   \<and> ETHER \<in> set ALL_UNITS \<and> weis ETHER = Fin (10 ^ 18)
   \<and> Wei_toUnit \<lparr>value = Fin 12345\<rparr> ETHER = Fin (12345 / 10 ^ 18)"
proof -
  have u: "ETHER \<in> set ALL_UNITS" by (simp add: ALL_UNITS_def)
  have w: "weis ETHER = Fin (10 ^ 18)" by (simp add: pow10_def)
  from Wei_toUnit_exact [of "\<lparr>value = Fin 12345\<rparr>" ETHER "10 ^ 18" 12345] u w
  show ?thesis by simp
qed

section \<open>Choice of a display unit\<close>

lemma isGreaterThanOrEqualTo_Fin: "isGreaterThanOrEqualTo (Fin a) (Fin b) \<longleftrightarrow> b \<le> a"
  by (auto simp add: isGreaterThanOrEqualTo_def)

lemma round_places_small:
  fixes e :: rat
  assumes "0 < e" and "e * 10 ^ D < 1 / 2"
  shows "round_places D ROUND_HALF_UP e = 0"
proof -
  have "0 < e * 10 ^ D" using assms(1) by simp
  with assms(2) have "\<lfloor>e * 10 ^ D + 1 / 2\<rfloor> = 0" by linarith
  then show ?thesis
    using \<open>0 < e * 10 ^ D\<close> by (simp add: round_places_def round_integer_def)
qed

lemma threshold_power_of_ten:
  fixes m :: int
  assumes "m \<noteq> 0"
  shows "isGreaterThanOrEqualTo (Fin (of_int m)) (dividedBy (Fin (10 ^ k)) (pow10 (int d)))
         \<longleftrightarrow> (10 ^ k / 10 ^ d :: rat) \<le> of_int m"
proof -
  let ?q = "10 ^ k / 10 ^ d :: rat"
  let ?r = "round_places DECIMAL_PLACES ROUNDING_MODE ?q"
  have div: "dividedBy (Fin (10 ^ k)) (pow10 (int d)) = Fin ?r"
    by (simp add: pow10_def dividedBy_def bn_div_def)
  have "?r \<le> of_int m \<longleftrightarrow> ?q \<le> of_int m"
  proof (cases "d \<le> k + DECIMAL_PLACES")
    case True
    then have "(10::rat) ^ k * 10 ^ DECIMAL_PLACES = 10 ^ (k + DECIMAL_PLACES - d) * 10 ^ d"
      by (simp flip: power_add)
    then have "?q * 10 ^ DECIMAL_PLACES = (of_int (10 ^ (k + DECIMAL_PLACES - d)) :: rat)"
      by (simp add: field_simps)
    then have "?r = ?q" by (rule round_places_exact)
    then show ?thesis by simp
  next
    case False
    then have d: "d = k + DECIMAL_PLACES + (d - k - DECIMAL_PLACES)" and pos: "0 < d - k - DECIMAL_PLACES"
      by simp_all
    let ?j = "d - k - DECIMAL_PLACES"
    have "(10::rat) ^ d = 10 ^ k * 10 ^ DECIMAL_PLACES * 10 ^ ?j"
      by (subst d) (simp add: power_add)
    then have e: "?q * 10 ^ DECIMAL_PLACES = 1 / 10 ^ ?j"
      by simp
    have "(10::rat) ^ 1 \<le> 10 ^ ?j"
      using pos by (intro power_increasing) simp_all
    then have "(1::rat) / 10 ^ ?j \<le> 1 / 10"
      by (simp add: field_simps)
    with e have small: "?q * 10 ^ DECIMAL_PLACES < 1 / 2" by simp
    have q0: "0 < ?q" by simp
    have r0: "?r = 0"
      unfolding ROUNDING_MODE_def using q0 small by (rule round_places_small)
    have "k < d" using False by simp
    then have "(10::rat) ^ k < 10 ^ d"
      by (intro power_strict_increasing) simp_all
    then have q1: "?q < 1" by simp
    show ?thesis
    proof (cases "0 < m")
      case True
      then have one: "(1::rat) \<le> of_int m" by (metis int_one_le_iff_zero_less of_int_1_le_iff)
      have a: "?q \<le> of_int m" using q1 one by linarith
      have b: "?r \<le> of_int m" unfolding r0 using one by linarith
      from a b show ?thesis by blast
    next
      case False
      with assms have "m < 0" by simp
      then have neg: "(of_int m :: rat) < 0" by simp
      have a: "\<not> ?q \<le> of_int m" using q0 neg by linarith
      have b: "\<not> ?r \<le> of_int m" unfolding r0 using neg by linarith
      from a b show ?thesis by blast
    qed
  qed
  with div show ?thesis by (simp add: isGreaterThanOrEqualTo_Fin)
qed

text \<open>
  Claim C3. For a Wei holding the integer \<open>m\<close>, a count of precision digits and
  candidates whose weis are powers of ten, \<^verbatim>\<open>getUnit\<close> is the specification's
  \<^verbatim>\<open>selectDisplayUnit\<close>: \<^verbatim>\<open>Units.ETHER\<close> for zero; else the first candidate, in the order
  given, whose weis divided by \<open>10 ^ digits\<close> are at most \<open>m\<close>; else \<^verbatim>\<open>Units.WEI\<close>.
\<close>

theorem Wei_getUnit_selects_display_unit:
  assumes "value this = Fin (of_int m)"
    and "\<forall>u \<in> set accepted. \<exists>k. weis u = Fin (10 ^ k)"
  shows "Wei_getUnit this (int digits) accepted = selectDisplayUnit_spec m digits accepted"
proof (cases "m = 0")
  case True
  with assms(1) show ?thesis
    by (simp add: Wei_getUnit_def selectDisplayUnit_spec_def ZERO_NUM_def isEqualTo_def)
next
  case False
  have "find (\<lambda>u. isGreaterThanOrEqualTo (Fin (of_int m)) (dividedBy (weis u) (pow10 (int digits)))) accepted
        = find (\<lambda>u. atomic_multiple u / 10 ^ digits \<le> of_int m) accepted"
  proof (rule find_cong [OF refl])
    fix u assume "u \<in> set accepted"
    with assms(2) obtain k where k: "weis u = Fin (10 ^ k)" by blast
    then have "atomic_multiple u = 10 ^ k" by (simp add: atomic_multiple_def)
    with k threshold_power_of_ten [OF False, of k digits]
    show "isGreaterThanOrEqualTo (Fin (of_int m)) (dividedBy (weis u) (pow10 (int digits)))
          \<longleftrightarrow> atomic_multiple u / 10 ^ digits \<le> of_int m"
      by simp
  qed
  with False assms(1) show ?thesis
    by (simp add: Wei_getUnit_def selectDisplayUnit_spec_def ZERO_NUM_def isEqualTo_def)
qed

theorem Wei_getUnit_selects_display_unit_witness:
  "Wei_getUnit \<lparr>value = Fin (10 ^ 17)\<rparr> 1 ALL_UNITS = ETHER
   \<and> Wei_getUnit \<lparr>value = Fin (10 ^ 17)\<rparr> 0 ALL_UNITS = MILLI
   \<and> Wei_getUnit \<lparr>value = Fin 0\<rparr> 0 ALL_UNITS = ETHER
   \<and> Wei_getUnit \<lparr>value = Fin (- 5)\<rparr> 0 ALL_UNITS = WEI"
proof -
  have units: "\<forall>u \<in> set ALL_UNITS. \<exists>k. weis u = Fin (10 ^ k)"
    using ALL_UNITS_weis by blast
  have s1: "selectDisplayUnit_spec (10 ^ 17) 1 ALL_UNITS = ETHER" by code_simp
  have s2: "selectDisplayUnit_spec (10 ^ 17) 0 ALL_UNITS = MILLI" by code_simp
  have s3: "selectDisplayUnit_spec 0 0 ALL_UNITS = ETHER" by code_simp
  have s4: "selectDisplayUnit_spec (- 5) 0 ALL_UNITS = WEI" by code_simp
  from Wei_getUnit_selects_display_unit [of "\<lparr>value = Fin (10 ^ 17)\<rparr>" "10 ^ 17" ALL_UNITS 1, OF _ units]
    Wei_getUnit_selects_display_unit [of "\<lparr>value = Fin (10 ^ 17)\<rparr>" "10 ^ 17" ALL_UNITS 0, OF _ units]
    Wei_getUnit_selects_display_unit [of "\<lparr>value = Fin 0\<rparr>" 0 ALL_UNITS 0, OF _ units]
    Wei_getUnit_selects_display_unit [of "\<lparr>value = Fin (- 5)\<rparr>" "- 5" ALL_UNITS 0, OF _ units]
    s1 s2 s3 s4
  show ?thesis by simp
qed

section \<open>Hexadecimal output\<close>

lemma digit_char_cases:
  fixes d :: int
  assumes "0 \<le> d" and "d < 16"
  shows "d \<in> {0, 1, 2, 3, 4, 5, 6, 7, 8, 9, 10, 11, 12, 13, 14, 15}"
  using assms by (simp; presburger)

lemma digit_char_value:
  assumes "0 \<le> d" and "d < 16"
  shows "hex_digit_value (digit_char d) = d"
  using digit_char_cases [OF assms]
  by (elim insertE emptyE) (simp_all add: digit_char_def hex_digit_value_def hex_digits_def)

lemma digit_char_hex:
  assumes "0 \<le> d" and "d < 16"
  shows "digit_char d \<in> set hex_digits"
  using digit_char_cases [OF assms]
  by (elim insertE emptyE) (simp_all add: digit_char_def hex_digits_def)


lemma digits_value_snoc: "digits_value b (ds @ [c]) = b * digits_value b ds + hex_digit_value c"
  by (simp add: digits_value_def)

lemma to_base_small: "n < b \<Longrightarrow> to_base b n = [digit_char n]"
  by (subst to_base.simps) simp

lemma to_base_step: "2 \<le> b \<Longrightarrow> b \<le> n \<Longrightarrow> to_base b n = to_base b (n div b) @ [digit_char (n mod b)]"
  by (subst to_base.simps) simp

lemma to_base_digits:
  "2 \<le> b \<Longrightarrow> b \<le> 16 \<Longrightarrow> 0 \<le> n \<Longrightarrow>
     digits_value b (to_base b n) = n
     \<and> (\<forall>c \<in> set (to_base b n). \<exists>d. 0 \<le> d \<and> d < b \<and> c = digit_char d)
     \<and> to_base b n \<noteq> []"
proof (induction b n rule: to_base.induct)
  case (1 b n)
  show ?case
  proof (cases "n < b")
    case True
    with "1.prems" have "hex_digit_value (digit_char n) = n"
      by (intro digit_char_value) linarith+
    with True "1.prems" show ?thesis
      by (auto simp add: to_base_small digits_value_def)
  next
    case False
    then have step: "to_base b n = to_base b (n div b) @ [digit_char (n mod b)]"
      using "1.prems" by (simp add: to_base_step)
    have "0 \<le> n div b" using "1.prems" by (simp add: pos_imp_zdiv_nonneg_iff)
    with False "1.prems" "1.IH" have ih: "digits_value b (to_base b (n div b)) = n div b"
      "\<forall>c \<in> set (to_base b (n div b)). \<exists>d. 0 \<le> d \<and> d < b \<and> c = digit_char d"
      by simp_all
    have m: "0 \<le> n mod b" "n mod b < b" using "1.prems" by simp_all
    then have "n mod b < 16" using "1.prems"(2) by linarith
    with m have dv: "hex_digit_value (digit_char (n mod b)) = n mod b"
      by (intro digit_char_value)
    have "digits_value b (to_base b n) = n"
      using ih(1) dv by (simp add: step digits_value_snoc)
    moreover have "\<forall>c \<in> set (to_base b n). \<exists>d. 0 \<le> d \<and> d < b \<and> c = digit_char d"
      using ih(2) m by (auto simp add: step)
    ultimately show ?thesis by (simp add: step)
  qed
qed

lemma to_base_16_hex:
  assumes "0 \<le> n"
  shows "hex_value (to_base 16 n) = n \<and> set (to_base 16 n) \<subseteq> set hex_digits \<and> to_base 16 n \<noteq> []"
proof -
  from to_base_digits [of 16 n] assms
  have v: "digits_value 16 (to_base 16 n) = n" and ne: "to_base 16 n \<noteq> []"
    and c: "\<forall>c \<in> set (to_base 16 n). \<exists>d. 0 \<le> d \<and> d < 16 \<and> c = digit_char d"
    by simp_all
  have "set (to_base 16 n) \<subseteq> set hex_digits"
  proof
    fix x assume "x \<in> set (to_base 16 n)"
    with c obtain d where "0 \<le> d" "d < 16" "x = digit_char d" by blast
    then show "x \<in> set hex_digits" by (simp add: digit_char_hex)
  qed
  with v ne show ?thesis by (simp add: hex_value_def)
qed

lemma strip_zeros_replicate: "strip_zeros (replicate k CHR ''0'') = []"
  by (simp add: strip_zeros_def)

lemma fraction_digits_zero: "strip_zeros (fraction_digits b k 0) = []"
proof -
  have "to_base b 0 = [CHR ''0'']"
    by (subst to_base.simps) (auto simp add: digit_char_def)
  then have "fraction_digits b k 0 = replicate (Suc (k - 1)) CHR ''0''"
    by (simp add: fraction_digits_def replicate_append_same)
  then show ?thesis
    by (simp only: strip_zeros_replicate)
qed

lemma toString16_of_int:
  "toString16 (Fin (of_int m)) = (if m < 0 then ''-'' else []) @ to_base 16 \<bar>m\<bar>"
proof -
  let ?P = "16 ^ DECIMAL_PLACES :: int"
  have "\<bar>of_int m :: rat\<bar> * 16 ^ DECIMAL_PLACES = of_int (\<bar>m\<bar> * ?P)"
    by simp
  then have n: "round_magnitude ROUNDING_MODE (\<bar>of_int m :: rat\<bar> * 16 ^ DECIMAL_PLACES) = \<bar>m\<bar> * ?P"
    by (simp only: round_magnitude_of_int)
  have P: "0 < ?P" by simp
  then have dm: "\<bar>m\<bar> * ?P div ?P = \<bar>m\<bar>" "\<bar>m\<bar> * ?P mod ?P = 0"
    by simp_all
  show ?thesis
    by (simp only: toString16.simps n Let_def dm fraction_digits_zero) simp
qed

text \<open>
  Claim C4, as amended. For a Wei holding the integer \<open>m\<close>, \<^verbatim>\<open>toHex\<close> is \<open>0x\<close> followed by
  lowercase hexadecimal digits that read back as \<open>\<bar>m\<bar>\<close>, with \<open>-\<close> before the \<open>0x\<close> when
  \<open>m\<close> is negative; zero gives \<open>0x0\<close>, \<open>-1\<close> gives \<open>-0x1\<close> and \<open>255\<close> gives \<open>0xff\<close>. For a
  Wei holding NaN or an infinity, as the result of a division by zero does, \<^verbatim>\<open>toHex\<close> is
  \<open>0xNaN\<close>, \<open>0xInfinity\<close> or \<open>-0xInfinity\<close>.
\<close>

theorem Wei_toHex_sign_prefix_digits:
  "(value this = Fin (of_int m) \<longrightarrow>
      (\<exists>ds. Wei_toHex this = (if m < 0 then ''-'' else []) @ ''0x'' @ ds
         \<and> ds \<noteq> [] \<and> set ds \<subseteq> set hex_digits \<and> hex_value ds = \<bar>m\<bar>))
   \<and> Wei_toHex \<lparr>value = Fin 0\<rparr> = ''0x0''
   \<and> Wei_toHex \<lparr>value = Fin (- 1)\<rparr> = ''-0x1''
   \<and> Wei_toHex \<lparr>value = Fin 255\<rparr> = ''0xff''
   \<and> (value this = NaN \<longrightarrow> Wei_toHex this = ''0xNaN'')
   \<and> (value this = PInf \<longrightarrow> Wei_toHex this = ''0xInfinity'')
   \<and> (value this = NInf \<longrightarrow> Wei_toHex this = ''-0xInfinity'')"
proof (intro conjI impI)
  assume v: "value this = Fin (of_int m)"
  have "bn_abs (Fin (of_int m)) = Fin (of_int \<bar>m\<bar>)" by simp
  then have "Wei_toHex this = (if m < 0 then ''-'' else []) @ ''0x'' @ to_base 16 \<bar>m\<bar>"
    using toString16_of_int [of "\<bar>m\<bar>"]
    by (simp add: Wei_toHex_def Wei_isNegative_def Wei_isZero_def v del: toString16.simps)
  with to_base_16_hex [of "\<bar>m\<bar>"]
  show "\<exists>ds. Wei_toHex this = (if m < 0 then ''-'' else []) @ ''0x'' @ ds
         \<and> ds \<noteq> [] \<and> set ds \<subseteq> set hex_digits \<and> hex_value ds = \<bar>m\<bar>"
    by auto
next
  show "Wei_toHex \<lparr>value = Fin 0\<rparr> = ''0x0''" by code_simp
  show "Wei_toHex \<lparr>value = Fin (- 1)\<rparr> = ''-0x1''" by code_simp
  show "Wei_toHex \<lparr>value = Fin 255\<rparr> = ''0xff''" by code_simp
next
  assume "value this = NaN"
  then show "Wei_toHex this = ''0xNaN''"
    by (simp add: Wei_toHex_def Wei_isNegative_def)
next
  assume "value this = PInf"
  then show "Wei_toHex this = ''0xInfinity''"
    by (simp add: Wei_toHex_def Wei_isNegative_def)
next
  assume "value this = NInf"
  then show "Wei_toHex this = ''-0xInfinity''"
    by (simp add: Wei_toHex_def Wei_isNegative_def Wei_isZero_def)
qed

theorem Wei_toHex_sign_prefix_digits_witness:
  "value (new_Wei (Fin (- 255)) WEI) = Fin (- 255)
   \<and> (\<exists>ds. Wei_toHex (new_Wei (Fin (- 255)) WEI) = ''-0x'' @ ds
         \<and> ds \<noteq> [] \<and> set ds \<subseteq> set hex_digits \<and> hex_value ds = 255)
   \<and> value (Wei_divide (new_Wei (Fin 0) WEI) (Fin 0)) = NaN
   \<and> Wei_toHex (Wei_divide (new_Wei (Fin 0) WEI) (Fin 0)) = ''0xNaN''"
proof -
  have v: "value (new_Wei (Fin (- 255)) WEI) = Fin (of_int (- 255))" by code_simp
  have n: "value (Wei_divide (new_Wei (Fin 0) WEI) (Fin 0)) = NaN" by code_simp
  from Wei_toHex_sign_prefix_digits [of "new_Wei (Fin (- 255)) WEI" "- 255"] v
    Wei_toHex_sign_prefix_digits [of "Wei_divide (new_Wei (Fin 0) WEI) (Fin 0)" 0] n
  show ?thesis by simp
qed

text \<open>The claim as worded fails at \<^verbatim>\<open>new Wei(0).divide(0)\<close>, a Wei holding NaN: its
  \<^verbatim>\<open>toHex\<close> is \<open>0xNaN\<close>, and \<open>NaN\<close> is no string of hexadecimal digits.\<close>

theorem Wei_toHex_not_a_number_counterexample:
  "Wei_toHex (Wei_divide (new_Wei (Fin 0) WEI) (Fin 0)) = ''0xNaN''
   \<and> \<not> set ''NaN'' \<subseteq> set hex_digits"
  by code_simp

section \<open>The format module's \<^verbatim>\<open>toHex\<close>\<close>

lemma toString16_negative: "isNegative val \<Longrightarrow> \<exists>s. toString16 val = ''-'' @ s"
  by (cases val) (simp_all add: Let_def)

text \<open>
  Claim C10. The format module's \<^verbatim>\<open>toHex\<close> is \<open>0x\<close> followed by the base-16 string of the
  BigNumber, for every input. For an integer \<open>m \<ge> 0\<close> that is \<open>0x\<close> and lowercase
  hexadecimal digits reading back as \<open>m\<close>, and \<open>0x0\<close> for zero. For every negative input
  the minus sign stands after the prefix, where \<^verbatim>\<open>Wei.toHex\<close> puts it before:
  \<^verbatim>\<open>toHex(-1)\<close> is \<open>0x-1\<close>.
\<close>

theorem format_toHex_sign_after_prefix:
  "format_toHex val = ''0x'' @ toString16 val
   \<and> (0 \<le> m \<longrightarrow>
        (\<exists>ds. format_toHex (Fin (of_int m)) = ''0x'' @ ds
           \<and> ds \<noteq> [] \<and> set ds \<subseteq> set hex_digits \<and> hex_value ds = m))
   \<and> format_toHex (Fin 0) = ''0x0''
   \<and> (isNegative val \<longrightarrow> (\<exists>s. format_toHex val = ''0x-'' @ s))
   \<and> (m < 0 \<longrightarrow>
        (\<exists>ds. format_toHex (Fin (of_int m)) = ''0x-'' @ ds
           \<and> Wei_toHex \<lparr>value = Fin (of_int m)\<rparr> = ''-0x'' @ ds
           \<and> ds \<noteq> [] \<and> set ds \<subseteq> set hex_digits \<and> hex_value ds = - m))
   \<and> format_toHex (Fin (- 1)) = ''0x-1''"
proof (intro conjI impI)
  show "format_toHex val = ''0x'' @ toString16 val"
    by (simp add: format_toHex_def)
next
  assume "0 \<le> m"
  then have "format_toHex (Fin (of_int m)) = ''0x'' @ to_base 16 m"
    by (simp add: format_toHex_def toString16_of_int del: toString16.simps)
  with to_base_16_hex [of m] \<open>0 \<le> m\<close>
  show "\<exists>ds. format_toHex (Fin (of_int m)) = ''0x'' @ ds
           \<and> ds \<noteq> [] \<and> set ds \<subseteq> set hex_digits \<and> hex_value ds = m"
    by auto
next
  show "format_toHex (Fin 0) = ''0x0''" by code_simp
next
  assume "isNegative val"
  then show "\<exists>s. format_toHex val = ''0x-'' @ s"
    using toString16_negative [of val] by (auto simp add: format_toHex_def)
next
  assume neg: "m < 0"
  then have f: "format_toHex (Fin (of_int m)) = ''0x-'' @ to_base 16 (- m)"
    by (simp add: format_toHex_def toString16_of_int del: toString16.simps)
  have "bn_abs (Fin (of_int m)) = Fin (of_int (- m))" using neg by simp
  then have w: "Wei_toHex \<lparr>value = Fin (of_int m)\<rparr> = ''-0x'' @ to_base 16 (- m)"
    using neg toString16_of_int [of "- m"]
    by (simp add: Wei_toHex_def Wei_isNegative_def Wei_isZero_def del: toString16.simps)
  from f w to_base_16_hex [of "- m"] neg
  show "\<exists>ds. format_toHex (Fin (of_int m)) = ''0x-'' @ ds
           \<and> Wei_toHex \<lparr>value = Fin (of_int m)\<rparr> = ''-0x'' @ ds
           \<and> ds \<noteq> [] \<and> set ds \<subseteq> set hex_digits \<and> hex_value ds = - m"
    by auto
next
  show "format_toHex (Fin (- 1)) = ''0x-1''" by code_simp
qed

theorem format_toHex_sign_after_prefix_witness:
  "format_toHex (Fin (- 255)) = ''0x-ff'' \<and> Wei_toHex \<lparr>value = Fin (- 255)\<rparr> = ''-0xff''
   \<and> format_toHex (Fin 255) = ''0xff'' \<and> isNegative (Fin (- 255))"
proof -
  have t: "toString16 (Fin (- 255)) = ''-ff''" by code_simp
  have w: "Wei_toHex \<lparr>value = Fin (- 255)\<rparr> = ''-0xff''" by code_simp
  have p: "format_toHex (Fin 255) = ''0xff''" by code_simp
  from format_toHex_sign_after_prefix [of "Fin (- 255)" "- 255"] t w p
  show ?thesis by simp
qed

section \<open>Trimming the fraction\<close>
















section \<open>Fixed-point formatting\<close>









section \<open>\<^verbatim>\<open>toString\<close>\<close>


lemma toFixed_not_finite_no_point: "\<not> isFinite x \<Longrightarrow> CHR ''.'' \<notin> set (toFixed dp rm x)"
  by (cases x) simp_all





section \<open>Classification of the connected chain\<close>

lemma lookup_chain_no_match:
  assumes "\<forall>(h, n, i) \<in> set registry. normalize_hash h \<noteq> normalize_hash hash"
  shows "lookup_chain registry hash = unknown_chain"
proof -
  have "find (\<lambda>(h, n, i). normalize_hash h = normalize_hash hash) registry = None"
    using assms by (auto simp add: find_None_iff)
  then show ?thesis by (simp add: lookup_chain_def)
qed

text \<open>
  Claim C6. When the transport resolves with a block hash that matches no entry of the
  registry, \<^verbatim>\<open>check()\<close> resolves to the chain \<open>unknown\<close> with id \<open>0\<close>, which is a result and
  not an error; when the transport rejects, \<^verbatim>\<open>check()\<close> rejects with the same error.
\<close>

theorem check_unknown_chain_and_transport_error:
  "((\<forall>(h, n, i) \<in> set registry. normalize_hash h \<noteq> normalize_hash hash) \<longrightarrow>
      check registry (Inr (Some hash)) = Inr \<lparr>chain = ''unknown'', chainId = 0\<rparr>)
   \<and> check registry (Inl err) = Inl err"
  by (simp add: check_def lookup_chain_no_match unknown_chain_def)

theorem check_unknown_chain_and_transport_error_witness:
  "check [(''0xD4E5'', ''mainnet'', 61)]
      (Inr (Some ''0x090e3063138d113f0e90dc2046ec6502401943bf7a664327cfcd0424360892e7'') :: string + string option)
     = Inr \<lparr>chain = ''unknown'', chainId = 0\<rparr>
   \<and> check [(''0xD4E5'', ''mainnet'', 61)] (Inl ''timeout'' :: string + string option) = Inl ''timeout''
   \<and> check [(''0xD4E5'', ''mainnet'', 61)] (Inr (Some ''0xd4e5'') :: string + string option)
     = Inr \<lparr>chain = ''mainnet'', chainId = 61\<rparr>"
proof -
  let ?reg = "[(''0xD4E5'', ''mainnet'', 61 :: nat)]"
  let ?hash = "''0x090e3063138d113f0e90dc2046ec6502401943bf7a664327cfcd0424360892e7''"
  have no: "\<forall>(h, n, i) \<in> set ?reg. normalize_hash h \<noteq> normalize_hash ?hash"
    by (simp add: normalize_hash_def)
  have m: "check ?reg (Inr (Some ''0xd4e5'') :: string + string option) = Inr \<lparr>chain = ''mainnet'', chainId = 61\<rparr>"
    by code_simp
  from check_unknown_chain_and_transport_error [of ?reg ?hash "''timeout''"] no m
  show ?thesis by simp
qed

end
